theory Spec2Isabelle
  imports Complex_Main "HOL-Library.Sublist"
begin

section \<open>Python strings and numbers\<close>

text \<open>
  A Python \<open>str\<close> is modelled as a \<^typ>\<open>string\<close> whose characters stand for the code
  points below 256. On that range \<open>str.lower\<close> moves \<open>A\<close>..\<open>Z\<close> and the Latin-1 capitals
  (192..222 without the multiplication sign 215) up by 32, \<open>str.isspace\<close> holds for
  9..13, 28..32, 133 and 160, and the only decimal digits (\<open>\d\<close>) are \<open>0\<close>..\<open>9\<close>.
  Python's float arithmetic is modelled by exact arithmetic on \<^typ>\<open>rat\<close>.
\<close>

datatype py_error = KeyError | ValueError | ZeroDivisionError | PermissionError | FileNotFoundError

definition is_upper_char :: "char \<Rightarrow> bool" where
  "is_upper_char c =
     (let n = (of_char c :: nat)
      in (65 \<le> n \<and> n \<le> 90) \<or> (192 \<le> n \<and> n \<le> 222 \<and> n \<noteq> 215))"

definition lower_char :: "char \<Rightarrow> char" where
  "lower_char c = (if is_upper_char c then char_of ((of_char c :: nat) + 32) else c)"

definition lower :: "string \<Rightarrow> string" where
  "lower s = map lower_char s"

definition is_space :: "char \<Rightarrow> bool" where
  "is_space c =
     (let n = (of_char c :: nat)
      in (9 \<le> n \<and> n \<le> 13) \<or> (28 \<le> n \<and> n \<le> 32) \<or> n = 133 \<or> n = 160)"

definition strip :: "string \<Rightarrow> string" where
  "strip s = rev (dropWhile is_space (rev (dropWhile is_space s)))"

definition is_digit :: "char \<Rightarrow> bool" where
  "is_digit c = (let n = (of_char c :: nat) in 48 \<le> n \<and> n \<le> 57)"

text \<open>\<open>sub in s\<close>: the string \<open>sub\<close> occurs in \<open>s\<close> as a contiguous block.\<close>

fun str_in :: "string \<Rightarrow> string \<Rightarrow> bool" where
  "str_in sub [] = (sub = [])"
| "str_in sub (c # cs) = (prefix sub (c # cs) \<or> str_in sub cs)"

text \<open>\<open>s.startswith(p)\<close>.\<close>

definition startswith :: "string \<Rightarrow> string \<Rightarrow> bool" where
  "startswith s p = prefix p s"

text \<open>\<open>os.path.basename\<close> on a POSIX path: what follows the last slash.\<close>

definition basename :: "string \<Rightarrow> string" where
  "basename p = rev (takeWhile (\<lambda>c. c \<noteq> CHR ''/'') (rev p))"

text \<open>\<open>str(n)\<close> for an integer: its decimal digits, with a minus sign when negative.\<close>

definition digit_char :: "nat \<Rightarrow> char" where
  "digit_char d = ''0123456789'' ! d"

function str_of_nat :: "nat \<Rightarrow> string" where
  "str_of_nat n = (if n < 10 then [digit_char n] else str_of_nat (n div 10) @ [digit_char (n mod 10)])"
  by pat_completeness auto
termination
  by (relation "measure (\<lambda>n. n)") auto

declare str_of_nat.simps [simp del]

definition str_of_int :: "int \<Rightarrow> string" where
  "str_of_int i = (if i < 0 then CHR ''-'' # str_of_nat (nat (- i)) else str_of_nat (nat i))"

text \<open>\<open>int(x)\<close> on a float: truncation towards zero.\<close>

definition py_int :: "rat \<Rightarrow> int" where
  "py_int x = (if 0 \<le> x then \<lfloor>x\<rfloor> else \<lceil>x\<rceil>)"

section \<open>Failure classification in \<open>download_video\<close>\<close>

definition drm_text :: string where
  "drm_text = ''DRM-protected content cannot be downloaded. Use official app (Netflix, Disney+, etc.)''"

definition login_text :: string where
  "login_text = ''Login required. Export cookies from browser. See COOKIE_GUIDE.md''"

definition unsupported_text :: string where
  "unsupported_text = ''Site not supported or outdated. Update yt-dlp: pip install --upgrade yt-dlp''"

definition not_found_text :: string where
  "not_found_text = ''Video not found (404). Video may be deleted or URL incorrect.''"

definition extraction_text :: string where
  "extraction_text = ''Extraction failed. Update yt-dlp: pip install --upgrade yt-dlp''"

definition cloudflare_text :: string where
  "cloudflare_text = ''Cloudflare protected. Install: pip install curl-cffi, then restart''"

text \<open>
  The conditions of the \<open>if\<close>/\<open>elif\<close> chain in the exception handler of
  \<open>download_video\<close>, in the order of the source.
\<close>

definition is_drm :: "string \<Rightarrow> bool" where
  "is_drm m = (str_in ''DRM'' m \<or> str_in ''drm protection'' (lower m))"

definition is_login :: "string \<Rightarrow> bool" where
  "is_login m =
     (str_in ''need to log in'' (lower m) \<or> str_in ''login required'' (lower m)
      \<or> str_in ''cookies'' (lower m) \<or> str_in ''nsfw'' (lower m))"

definition is_unsupported :: "string \<Rightarrow> bool" where
  "is_unsupported m = (str_in ''Unsupported URL'' m \<or> str_in ''No video formats found'' m)"

definition is_not_found :: "string \<Rightarrow> bool" where
  "is_not_found m = str_in ''HTTP Error 404'' m"

definition is_extraction :: "string \<Rightarrow> bool" where
  "is_extraction m = (str_in ''Unable to extract'' m \<or> str_in ''Failed to parse'' m)"

definition is_cloudflare :: "string \<Rightarrow> bool" where
  "is_cloudflare m =
     (str_in ''Cloudflare'' m \<or> str_in ''HTTP Error 403'' m \<or> str_in ''impersonate'' m)"

text \<open>The text stored in the record's \<open>error\<close> field for the exception message \<open>m\<close>.\<close>

definition classify_error :: "string \<Rightarrow> string" where
  "classify_error m =
     (if is_drm m then drm_text
      else if is_login m then login_text
      else if is_unsupported m then unsupported_text
      else if is_not_found m then not_found_text
      else if is_extraction m then extraction_text
      else if is_cloudflare m then cloudflare_text
      else m)"

definition matches_no_rule :: "string \<Rightarrow> bool" where
  "matches_no_rule m =
     (\<not> is_drm m \<and> \<not> is_login m \<and> \<not> is_unsupported m \<and> \<not> is_not_found m
      \<and> \<not> is_extraction m \<and> \<not> is_cloudflare m)"

section \<open>Format selection in \<open>download_video\<close>\<close>

text \<open>
  The entries of \<open>ydl_opts\<close> that depend on the requested quality and format; a key that
  is not set is \<open>None\<close>. The other entries are the same for every request.
\<close>

record ydl_opts =
  format_sel :: "string option"
  merge_output_format :: "string option"
  postprocessors :: "(string \<times> string \<times> string) list option"
  keepvideo :: "bool option"

definition base_opts :: ydl_opts where
  "base_opts = \<lparr>format_sel = None, merge_output_format = None, postprocessors = None,
                 keepvideo = None\<rparr>"

definition format_opts :: "string \<Rightarrow> string \<Rightarrow> ydl_opts" where
  "format_opts quality format_type =
     (if format_type = ''video'' then
        (if quality = ''best'' then
           base_opts\<lparr>format_sel := Some (''bestvideo[ext=mp4]+bestaudio[ext=m4a]/''
                                          @ ''bestvideo+bestaudio/''
                                          @ ''best[ext=mp4]/''
                                          @ ''best''),
                     merge_output_format := Some ''mp4''\<rparr>
         else if quality = ''4k'' then
           base_opts\<lparr>format_sel := Some (''bestvideo[height>=2160][ext=mp4]+bestaudio[ext=m4a]/''
                                          @ ''bestvideo[height>=2160]+bestaudio/''
                                          @ ''best[height>=2160]/''
                                          @ ''bestvideo+bestaudio/''
                                          @ ''best''),
                     merge_output_format := Some ''mp4''\<rparr>
         else if quality = ''1080p'' then
           base_opts\<lparr>format_sel := Some (''bestvideo[height<=1080][ext=mp4]+bestaudio[ext=m4a]/''
                                          @ ''bestvideo[height<=1080]+bestaudio/''
                                          @ ''best[height<=1080]/''
                                          @ ''best''),
                     merge_output_format := Some ''mp4''\<rparr>
         else if quality = ''720p'' then
           base_opts\<lparr>format_sel := Some (''bestvideo[height<=720][ext=mp4]+bestaudio[ext=m4a]/''
                                          @ ''bestvideo[height<=720]+bestaudio/''
                                          @ ''best[height<=720]/''
                                          @ ''best''),
                     merge_output_format := Some ''mp4''\<rparr>
         else base_opts)
      else if format_type = ''audio'' then
        base_opts\<lparr>format_sel := Some ''bestaudio/best'',
                  postprocessors := Some [(''FFmpegExtractAudio'', ''mp3'', ''320'')],
                  keepvideo := Some False\<rparr>
      else base_opts)"

text \<open>The alternatives of a selector, which a slash separates, in order.\<close>

fun split_slash :: "string \<Rightarrow> string list" where
  "split_slash [] = [] # []"
| "split_slash (c # cs) =
     (if c = CHR ''/'' then [] # split_slash cs
      else (case split_slash cs of [] \<Rightarrow> [c] # [] | w # ws \<Rightarrow> (c # w) # ws))"

section \<open>Input validation (\<open>SecurityValidator\<close>)\<close>

text \<open>
  \<open>urlparse\<close> and \<open>re.search\<close> belong to the Python standard library and
  \<open>bleach.clean\<close> to a third-party package; the validators take them as parameters.
  Of a parsed URL the code reads the scheme and the host name (\<open>None\<close> when the URL
  has no host).
\<close>

record parsed_url =
  scheme :: string
  hostname :: "string option"

definition bs :: char where
  "bs = CHR 0x5C"

definition ALLOWED_SCHEMES :: "string list" where
  "ALLOWED_SCHEMES = [''http'', ''https'']"

definition MAX_URL_LENGTH :: nat where
  "MAX_URL_LENGTH = 2048"

definition BLOCKED_PATTERNS :: "string list" where
  "BLOCKED_PATTERNS =
     [''<script[^>]*>.*?</script>'',
      ''javascript:'',
      ''on'' @ bs # ''w+'' @ bs # ''s*='',
      ''eval'' @ bs # ''s*'' @ bs # ''('',
      ''expression'' @ bs # ''s*'' @ bs # ''('',
      ''import'' @ bs # ''s+'',
      ''exec'' @ bs # ''s*'' @ bs # ''('',
      ''<iframe'',
      ''<embed'',
      ''<object'',
      bs # ''.'' @ bs # ''./'' @ bs # ''.'' @ bs # ''.'',
      bs # ''.'' @ bs # ''.'' @ bs # bs # bs # ''.'' @ bs # ''.'',
      ''union'' @ bs # ''s+select'',
      ''drop'' @ bs # ''s+table'',
      ''insert'' @ bs # ''s+into'',
      ''delete'' @ bs # ''s+from'',
      ''update'' @ bs # ''s+.*set'',
      ''--'' @ bs # ''s*$'',
      ''/'' @ bs # ''*.*'' @ bs # ''*/'']"

text \<open>\<open>sep.join(xs)\<close>.\<close>

fun join :: "string \<Rightarrow> string list \<Rightarrow> string" where
  "join sep [] = []"
| "join sep [x] = x"
| "join sep (x # y # ys) = x @ sep @ join sep (y # ys)"

text \<open>
  \<open>validate_url\<close> returns the pair \<open>(is_valid, error_message)\<close>; the message is
  \<open>None\<close> when the URL is accepted. The loop over the blocked patterns returns at the
  first pattern found in the lower-cased URL.
\<close>

definition validate_url ::
  "(string \<Rightarrow> string \<Rightarrow> bool) \<Rightarrow> (string \<Rightarrow> py_error + parsed_url) \<Rightarrow> string
     \<Rightarrow> bool \<times> string option" where
  "validate_url re_search urlparse url =
     (if url = [] then (False, Some ''URL is required'')
      else if length url > MAX_URL_LENGTH then (False, Some ''URL too long'')
      else if list_ex (\<lambda>pattern. re_search pattern (lower url)) BLOCKED_PATTERNS
        then (False, Some ''URL contains suspicious content'')
      else
        (case urlparse url of
           Inl e \<Rightarrow> (False, Some ''Invalid URL format'')
         | Inr parsed \<Rightarrow>
             if scheme parsed \<notin> set ALLOWED_SCHEMES
             then (False, Some (''Only '' @ join '', '' ALLOWED_SCHEMES @ '' URLs are allowed''))
             else
               (case hostname parsed of
                  None \<Rightarrow> (True, None)
                | Some h \<Rightarrow>
                    if h = [] then (True, None)
                    else
                      (let hostname_lower = lower h in
                       if hostname_lower \<in> set [''localhost'', ''127.0.0.1'', ''0.0.0.0'', ''::1'']
                       then (False, Some ''Local URLs are not allowed'')
                       else if startswith hostname_lower ''192.168.''
                               \<or> startswith hostname_lower ''10.''
                               \<or> startswith hostname_lower ''172.''
                       then (False, Some ''Private IP addresses are not allowed'')
                       else if str_in ''169.254.169.254'' hostname_lower
                       then (False, Some ''Metadata endpoints are not allowed'')
                       else (True, None)))))"

definition sanitize_string :: "(string \<Rightarrow> string) \<Rightarrow> string \<Rightarrow> nat \<Rightarrow> string" where
  "sanitize_string clean text max_length =
     (if text = [] then []
      else strip (filter (\<lambda>c. c \<noteq> CHR 0x00) (clean (take max_length text))))"

definition validate_quality :: "string \<Rightarrow> bool \<times> string" where
  "validate_quality quality =
     (if quality = [] then (True, ''best'')
      else
        (let quality = strip (lower quality) in
         if quality \<in> set [''best'', ''4k'', ''1080p'', ''720p'', ''480p''] then (True, quality)
         else (False, ''best'')))"

definition validate_format :: "string \<Rightarrow> bool \<times> string" where
  "validate_format format_type =
     (if format_type = [] then (True, ''video'')
      else
        (let format_type = strip (lower format_type) in
         if format_type \<in> set [''video'', ''audio''] then (True, format_type)
         else (False, ''video'')))"

text \<open>
  The host names that the specification lists as internal: the property is stated on the
  host name that the parser reports.
\<close>

definition internal_host :: "string \<Rightarrow> bool" where
  "internal_host h =
     (h \<in> set [''localhost'', ''127.0.0.1'', ''0.0.0.0'', ''::1'']
      \<or> startswith h ''10.'' \<or> startswith h ''172.'' \<or> startswith h ''192.168.''
      \<or> str_in ''169.254.169.254'' h)"

text \<open>
  A stand-in for \<open>bleach.clean(text, tags=[], strip=True)\<close>, used where a concrete
  cleaner is needed: it drops everything from a \<open><\<close> up to the next \<open>>\<close> and
  escapes a stray \<open>>\<close> or \<open>&\<close>. Text without those three characters is returned as
  it is; the general theorems take from the library only that it returns a string of
  letters, digits and underscores unchanged (\<open>keeps_words\<close> below).
\<close>

fun clean_scan :: "bool \<Rightarrow> string \<Rightarrow> string" where
  "clean_scan in_tag [] = []"
| "clean_scan in_tag (c # cs) =
     (if in_tag then (if c = CHR ''>'' then clean_scan False cs else clean_scan True cs)
      else if c = CHR ''<'' then clean_scan True cs
      else if c = CHR ''>'' then ''&gt;'' @ clean_scan False cs
      else if c = CHR ''&'' then ''&amp;'' @ clean_scan False cs
      else c # clean_scan False cs)"

definition bleach_clean :: "string \<Rightarrow> string" where
  "bleach_clean text = clean_scan False text"

text \<open>Letters, digits and the underscore: characters that are no markup.\<close>

definition is_word_char :: "char \<Rightarrow> bool" where
  "is_word_char c =
     (let n = (of_char c :: nat)
      in (48 \<le> n \<and> n \<le> 57) \<or> (65 \<le> n \<and> n \<le> 90) \<or> (97 \<le> n \<and> n \<le> 122) \<or> n = 95)"

definition keeps_words :: "(string \<Rightarrow> string) \<Rightarrow> bool" where
  "keeps_words clean = (\<forall>s. list_all is_word_char s \<longrightarrow> clean s = s)"

section \<open>The job registry (\<open>download_progress\<close>)\<close>

text \<open>
  A job record is the dictionary stored under the job id; a key that is not yet set is
  \<open>None\<close>. The registry \<open>download_progress\<close> maps ids to records.
\<close>

record job =
  j_id :: string
  j_url :: string
  j_status :: string
  j_progress :: rat
  j_quality :: string
  j_format :: string
  j_started_at :: string
  j_filename :: "string option"
  j_downloaded :: "rat option"
  j_total :: "rat option"
  j_speed :: "rat option"
  j_eta :: "rat option"
  j_error :: "string option"

type_synonym registry = "string \<rightharpoonup> job"

text \<open>The JSON body of a submission: \<open>url\<close> is required, the other two keys are optional.\<close>

record request =
  req_url :: string
  req_quality :: "string option"
  req_format :: "string option"

datatype start_response =
    Started string
  | Invalid_URL string
  | Invalid_quality
  | Invalid_format

fun start_status_code :: "start_response \<Rightarrow> nat" where
  "start_status_code (Started d) = 200"
| "start_status_code (Invalid_URL m) = 400"
| "start_status_code Invalid_quality = 400"
| "start_status_code Invalid_format = 400"

text \<open>The arguments of the background thread: url, job id, quality, format.\<close>

type_synonym task = "string \<times> string \<times> string \<times> string"

text \<open>
  The id of a submission, from the clock reading \<open>time.time()\<close> in seconds:
  \<open>f"download_{int(time.time() * 1000)}"\<close>.
\<close>

definition new_download_id :: "rat \<Rightarrow> string" where
  "new_download_id now = ''download_'' @ str_of_int (py_int (now * 1000))"

text \<open>
  The part of \<open>start_download\<close> after the three validations: make the id, store the
  queued record under it, start the thread, answer with the id. \<open>stamp\<close> is
  \<open>datetime.now().isoformat()\<close>.
\<close>

definition register_download ::
  "rat \<Rightarrow> string \<Rightarrow> string \<Rightarrow> string \<Rightarrow> string \<Rightarrow> registry
     \<Rightarrow> start_response \<times> registry \<times> task option" where
  "register_download now stamp url quality format_type download_progress =
     (let download_id = new_download_id now in
      (Started download_id,
       download_progress(download_id \<mapsto>
         \<lparr>j_id = download_id, j_url = url, j_status = ''queued'', j_progress = 0,
          j_quality = quality, j_format = format_type, j_started_at = stamp,
          j_filename = None, j_downloaded = None, j_total = None, j_speed = None,
          j_eta = None, j_error = None\<rparr>),
       Some (url, download_id, quality, format_type)))"

definition start_download ::
  "(string \<Rightarrow> string \<Rightarrow> bool) \<Rightarrow> (string \<Rightarrow> py_error + parsed_url) \<Rightarrow> rat \<Rightarrow> string
     \<Rightarrow> registry \<Rightarrow> request \<Rightarrow> start_response \<times> registry \<times> task option" where
  "start_download re_search urlparse now stamp download_progress data =
     (let url = strip (req_url data);
          quality = (case req_quality data of None \<Rightarrow> ''best'' | Some q \<Rightarrow> q);
          format_type = (case req_format data of None \<Rightarrow> ''video'' | Some f \<Rightarrow> f)
      in
        (case validate_url re_search urlparse url of
           (False, error_msg) \<Rightarrow>
             (Invalid_URL (case error_msg of None \<Rightarrow> [] | Some m \<Rightarrow> m), download_progress, None)
         | (True, error_msg) \<Rightarrow>
             (case validate_quality quality of
                (False, quality) \<Rightarrow> (Invalid_quality, download_progress, None)
              | (True, quality) \<Rightarrow>
                  (case validate_format format_type of
                     (False, format_type) \<Rightarrow> (Invalid_format, download_progress, None)
                   | (True, format_type) \<Rightarrow>
                       register_download now stamp url quality format_type download_progress))))"

text \<open>
  \<open>re.match(r'^download_\d+$', s)\<close>: the prefix, then one digit or more up to the end
  of the string, where \<open>$\<close> also matches before one final newline.
\<close>

definition match_download_id :: "string \<Rightarrow> bool" where
  "match_download_id s =
     (let body = (if s \<noteq> [] \<and> last s = CHR 0x0A then butlast s else s)
      in startswith body ''download_'' \<and> drop 9 body \<noteq> [] \<and> list_all is_digit (drop 9 body))"

datatype progress_response =
    Job_json job
  | Invalid_download_ID
  | Download_not_found

fun progress_status_code :: "progress_response \<Rightarrow> nat" where
  "progress_status_code (Job_json j) = 200"
| "progress_status_code Invalid_download_ID = 400"
| "progress_status_code Download_not_found = 404"

definition get_progress :: "(string \<Rightarrow> string) \<Rightarrow> registry \<Rightarrow> string \<Rightarrow> progress_response" where
  "get_progress clean download_progress download_id =
     (let download_id = sanitize_string clean download_id 50 in
      if \<not> match_download_id download_id then Invalid_download_ID
      else
        (case download_progress download_id of
           Some j \<Rightarrow> Job_json j
         | None \<Rightarrow> Download_not_found))"

section \<open>Progress events\<close>

text \<open>
  The dictionary that the collaborator passes to the progress hook: \<open>status\<close> is always
  there, every other key may be missing (\<open>None\<close>). Byte counts, speed and remaining
  time are numbers.
\<close>

record hook_event =
  e_status :: string
  e_filename :: "string option"
  e_total_bytes :: "rat option"
  e_total_bytes_estimate :: "rat option"
  e_downloaded_bytes :: "rat option"
  e_speed :: "rat option"
  e_eta :: "rat option"
  e_error :: "string option"

text \<open>
  A call either returns or raises; both leave a record behind, since the hook writes
  into the record before it divides.
\<close>

datatype 'a outcome = Returns 'a | Raises py_error 'a

fun state_of :: "'a outcome \<Rightarrow> 'a" where
  "state_of (Returns x) = x"
| "state_of (Raises e x) = x"

text \<open>\<open>d.get(key, default)\<close>.\<close>

definition get_default :: "'a option \<Rightarrow> 'a \<Rightarrow> 'a" where
  "get_default v dflt = (case v of None \<Rightarrow> dflt | Some x \<Rightarrow> x)"

text \<open>
  The body shared by the \<open>total_bytes\<close> and the \<open>total_bytes_estimate\<close> branch of
  \<open>progress_hook\<close>: the two differ only in the key that \<open>total\<close> is read from.
\<close>

definition store_counters :: "rat \<Rightarrow> hook_event \<Rightarrow> job \<Rightarrow> job outcome" where
  "store_counters total_v d j =
     (let downloaded = get_default (e_downloaded_bytes d) 0 in
      if total_v = 0 then Raises ZeroDivisionError j
      else Returns (j\<lparr>j_progress := (downloaded / total_v) * 100,
                      j_downloaded := Some downloaded,
                      j_total := Some total_v,
                      j_speed := Some (get_default (e_speed d) 0),
                      j_eta := Some (get_default (e_eta d) 0)\<rparr>))"

text \<open>\<open>progress_hook\<close>, on the record \<open>download_progress[download_id]\<close>.\<close>

definition progress_hook_job :: "hook_event \<Rightarrow> job \<Rightarrow> job outcome" where
  "progress_hook_job d j =
     (if e_status d = ''downloading'' then
        (let j1 = j\<lparr>j_status := ''downloading'',
                    j_filename := Some (basename (get_default (e_filename d) ''Unknown''))\<rparr>
         in case e_total_bytes d of
              Some total_v \<Rightarrow> store_counters total_v d j1
            | None \<Rightarrow>
                (case e_total_bytes_estimate d of
                   Some total_v \<Rightarrow> store_counters total_v d j1
                 | None \<Rightarrow> Returns j1))
      else if e_status d = ''finished'' then
        Returns (j\<lparr>j_status := ''processing'', j_progress := 100,
                   j_filename := Some (basename (get_default (e_filename d) ''Unknown''))\<rparr>)
      else if e_status d = ''error'' then
        Returns (j\<lparr>j_status := ''error'',
                   j_error := Some (get_default (e_error d) ''Unknown error'')\<rparr>)
      else Returns j)"

definition progress_hook :: "hook_event \<Rightarrow> string \<Rightarrow> registry \<Rightarrow> registry outcome" where
  "progress_hook d download_id download_progress =
     (case download_progress download_id of
        None \<Rightarrow> Raises KeyError download_progress
      | Some j \<Rightarrow>
          (case progress_hook_job d j of
             Returns j' \<Rightarrow> Returns (download_progress(download_id \<mapsto> j'))
           | Raises e j' \<Rightarrow> Raises e (download_progress(download_id \<mapsto> j'))))"

text \<open>\<open>DownloadLogger.error\<close>, on the record of its job.\<close>

definition logger_error_job :: "string \<Rightarrow> job \<Rightarrow> job" where
  "logger_error_job msg j = j\<lparr>j_status := ''error'', j_error := Some msg\<rparr>"

definition logger_error :: "string \<Rightarrow> string \<Rightarrow> registry \<Rightarrow> registry outcome" where
  "logger_error msg download_id download_progress =
     (case download_progress download_id of
        None \<Rightarrow> Raises KeyError download_progress
      | Some j \<Rightarrow> Returns (download_progress(download_id \<mapsto> logger_error_job msg j)))"

text \<open>The exception handler of \<open>download_video\<close>, for the exception message \<open>error_msg\<close>.\<close>

definition download_failed :: "string \<Rightarrow> job \<Rightarrow> job" where
  "download_failed error_msg j =
     j\<lparr>j_status := ''error'', j_error := Some (classify_error error_msg)\<rparr>"

text \<open>
  What the collaborator reports about one job: an error through the logger, or an event
  through the progress hook. A run of events stops at the first call that raises; otherwise
  it yields the record after each event.
\<close>

datatype job_event = Logger_error string | Progress hook_event

fun apply_event :: "job_event \<Rightarrow> job \<Rightarrow> job outcome" where
  "apply_event (Logger_error msg) j = Returns (logger_error_job msg j)"
| "apply_event (Progress d) j = progress_hook_job d j"

fun run_events :: "job \<Rightarrow> job_event list \<Rightarrow> py_error + job list" where
  "run_events j [] = Inr []"
| "run_events j (ev # evs) =
     (case apply_event ev j of
        Raises e j' \<Rightarrow> Inl e
      | Returns j' \<Rightarrow>
          (case run_events j' evs of
             Inl e \<Rightarrow> Inl e
           | Inr js \<Rightarrow> Inr (j' # js)))"

definition is_terminal :: "string \<Rightarrow> bool" where
  "is_terminal s = (s = ''completed'' \<or> s = ''error'')"

fun is_error_event :: "job_event \<Rightarrow> bool" where
  "is_error_event (Logger_error msg) = True"
| "is_error_event (Progress d) = (e_status d = ''error'')"

text \<open>The total that a downloading event carries: \<open>total_bytes\<close> first, else the estimate.\<close>

definition event_total :: "hook_event \<Rightarrow> rat option" where
  "event_total d = (case e_total_bytes d of Some t \<Rightarrow> Some t | None \<Rightarrow> e_total_bytes_estimate d)"

definition event_downloaded :: "hook_event \<Rightarrow> rat" where
  "event_downloaded d = get_default (e_downloaded_bytes d) 0"

section \<open>The retention sweeper (\<open>cleanup_old_downloads\<close>)\<close>

text \<open>
  The download folder as a list of named entries, in the order in which \<open>os.listdir\<close>
  reports them. A regular file has a modification time and may or may not be removable by
  the process; any other entry is a directory, with its modification time.
\<close>

datatype node = Regular_file rat bool | Directory rat

type_synonym folder = "(string \<times> node) list"

definition listdir :: "folder \<Rightarrow> string list" where
  "listdir fs = map fst fs"

definition isfile :: "folder \<Rightarrow> string \<Rightarrow> bool" where
  "isfile fs name = (case map_of fs name of Some (Regular_file m r) \<Rightarrow> True | _ \<Rightarrow> False)"

definition getmtime :: "folder \<Rightarrow> string \<Rightarrow> py_error + rat" where
  "getmtime fs name =
     (case map_of fs name of
        Some (Regular_file m r) \<Rightarrow> Inr m
      | Some (Directory m) \<Rightarrow> Inr m
      | None \<Rightarrow> Inl FileNotFoundError)"

definition os_remove :: "string \<Rightarrow> folder \<Rightarrow> py_error + folder" where
  "os_remove name fs =
     (case map_of fs name of
        None \<Rightarrow> Inl FileNotFoundError
      | Some (Directory m) \<Rightarrow> Inl PermissionError
      | Some (Regular_file m r) \<Rightarrow>
          if r then Inr (filter (\<lambda>entry. fst entry \<noteq> name) fs) else Inl PermissionError)"

datatype log_line =
    Cleaned_up string
  | Failed_to_delete string py_error
  | Cleanup_complete nat
  | Cleanup_error py_error

record sweep_state =
  files :: folder
  cleanup_count :: nat
  printed :: "log_line list"

text \<open>
  The loop of \<open>cleanup_old_downloads\<close> over the listing. An exception of \<open>os.remove\<close> is
  caught inside the loop; any other exception leaves the loop and reaches the outer handler.
\<close>

fun cleanup_loop :: "rat \<Rightarrow> string list \<Rightarrow> sweep_state \<Rightarrow> sweep_state outcome" where
  "cleanup_loop current_time [] st = Returns st"
| "cleanup_loop current_time (filename # rest) st =
     (if isfile (files st) filename then
        (case getmtime (files st) filename of
           Inl e \<Rightarrow> Raises e st
         | Inr mtime \<Rightarrow>
             (let file_age = current_time - mtime in
              if file_age > 30 then
                (case os_remove filename (files st) of
                   Inr fs' \<Rightarrow>
                     cleanup_loop current_time rest
                       (st\<lparr>files := fs', cleanup_count := cleanup_count st + 1,
                           printed := printed st @ [Cleaned_up filename]\<rparr>)
                 | Inl e \<Rightarrow>
                     cleanup_loop current_time rest
                       (st\<lparr>printed := printed st @ [Failed_to_delete filename e]\<rparr>))
              else cleanup_loop current_time rest st))
      else cleanup_loop current_time rest st)"

definition cleanup_old_downloads :: "rat \<Rightarrow> folder \<Rightarrow> sweep_state" where
  "cleanup_old_downloads current_time fs =
     (case cleanup_loop current_time (listdir fs) \<lparr>files = fs, cleanup_count = 0, printed = []\<rparr> of
        Returns st \<Rightarrow>
          if cleanup_count st > 0
          then st\<lparr>printed := printed st @ [Cleanup_complete (cleanup_count st)]\<rparr>
          else st
      | Raises e st \<Rightarrow> st\<lparr>printed := printed st @ [Cleanup_error e]\<rparr>)"

text \<open>A regular file that the tick has to remove: older than thirty seconds.\<close>

definition expired :: "rat \<Rightarrow> node \<Rightarrow> bool" where
  "expired current_time n =
     (case n of Regular_file m r \<Rightarrow> current_time - m > 30 | Directory m \<Rightarrow> False)"

definition removable :: "node \<Rightarrow> bool" where
  "removable n = (case n of Regular_file m r \<Rightarrow> r | Directory m \<Rightarrow> False)"

section \<open>Concrete inputs\<close>

text \<open>Two clock readings in the same millisecond: 1700000000.0001 and 1700000000.0004.\<close>

definition clock_a :: rat where
  "clock_a = 17000000000001 / 10000"

definition clock_b :: rat where
  "clock_b = 17000000000004 / 10000"

text \<open>
  Stand-ins for the library functions at concrete inputs: a pattern search that finds
  nothing, and a parser that knows two URLs.
\<close>

definition never_matches :: "string \<Rightarrow> string \<Rightarrow> bool" where
  "never_matches pattern text = False"

definition parse_example :: "string \<Rightarrow> py_error + parsed_url" where
  "parse_example u =
     (if u = ''http://localhost/admin'' then Inr \<lparr>scheme = ''http'', hostname = Some ''localhost''\<rparr>
      else if u = ''https://example.com/v''
        then Inr \<lparr>scheme = ''https'', hostname = Some ''example.com''\<rparr>
      else Inl ValueError)"

definition local_request :: request where
  "local_request = \<lparr>req_url = '' http://localhost/admin'', req_quality = None, req_format = None\<rparr>"

definition example_request :: request where
  "example_request = \<lparr>req_url = ''https://example.com/v'', req_quality = None, req_format = None\<rparr>"

text \<open>An id of 51 characters: the prefix, 41 digits and a letter.\<close>

definition long_id :: string where
  "long_id = ''download_00000000000000000000000000000000000000001x''"

text \<open>
  A record that has failed, one that has completed and one that is queued, and events of
  the progress hook.
\<close>

definition queued_job :: job where
  "queued_job =
     \<lparr>j_id = ''download_1700000000000'', j_url = ''https://example.com/v'',
      j_status = ''queued'', j_progress = 0, j_quality = ''best'', j_format = ''video'',
      j_started_at = ''2023-11-14T22:13:20'', j_filename = None, j_downloaded = None,
      j_total = None, j_speed = None, j_eta = None, j_error = None\<rparr>"

definition failed_job :: job where
  "failed_job = queued_job\<lparr>j_status := ''error'', j_error := Some ''fragment 3 not found''\<rparr>"

definition completed_job :: job where
  "completed_job = queued_job\<lparr>j_status := ''completed'', j_progress := 100\<rparr>"

definition downloading_event :: "rat option \<Rightarrow> rat option \<Rightarrow> rat \<Rightarrow> hook_event" where
  "downloading_event total_bytes estimate downloaded =
     \<lparr>e_status = ''downloading'', e_filename = Some ''/app/downloads/clip.mp4'',
      e_total_bytes = total_bytes, e_total_bytes_estimate = estimate,
      e_downloaded_bytes = Some downloaded, e_speed = Some 1024, e_eta = Some 1,
      e_error = None\<rparr>"

definition error_event :: hook_event where
  "error_event =
     \<lparr>e_status = ''error'', e_filename = None, e_total_bytes = None,
      e_total_bytes_estimate = None, e_downloaded_bytes = None, e_speed = None, e_eta = None,
      e_error = None\<rparr>"

text \<open>The statuses, and the progress values, along a run of events.\<close>

definition statuses_of :: "py_error + job list \<Rightarrow> py_error + string list" where
  "statuses_of r = (case r of Inl e \<Rightarrow> Inl e | Inr js \<Rightarrow> Inr (map j_status js))"

definition progress_of :: "py_error + job list \<Rightarrow> py_error + rat list" where
  "progress_of r = (case r of Inl e \<Rightarrow> Inl e | Inr js \<Rightarrow> Inr (map j_progress js))"

text \<open>
  A download folder at time 1000: an old file, an old file that the process may not
  remove, a fresh file and a subdirectory.
\<close>

definition example_folder :: folder where
  "example_folder =
     [(''old.mp4'', Regular_file 100 True),
      (''locked.mp4'', Regular_file 100 False),
      (''new.mp4'', Regular_file 980 True),
      (''sub'', Directory 50)]"

section \<open>Facts about the string functions\<close>

lemma str_of_nat_small: "n < 10 \<Longrightarrow> str_of_nat n = [digit_char n]"
  by (simp add: str_of_nat.simps)

lemma str_of_nat_step:
  "\<not> n < 10 \<Longrightarrow> str_of_nat n = str_of_nat (n div 10) @ [digit_char (n mod 10)]"
  by (subst str_of_nat.simps) simp

lemma is_digit_digit_char: "d < 10 \<Longrightarrow> is_digit (digit_char d)"
proof -
  assume "d < 10"
  then have "d = 0 \<or> d = 1 \<or> d = 2 \<or> d = 3 \<or> d = 4 \<or> d = 5 \<or> d = 6 \<or> d = 7
      \<or> d = 8 \<or> d = 9"
    by arith
  then show ?thesis
    by (elim disjE) (simp_all add: digit_char_def is_digit_def)
qed

lemma str_of_nat_digits: "str_of_nat n \<noteq> [] \<and> list_all is_digit (str_of_nat n)"
proof (induction n rule: str_of_nat.induct)
  case (1 n)
  show ?case
  proof (cases "n < 10")
    case True
    then show ?thesis by (simp add: str_of_nat_small is_digit_digit_char)
  next
    case False
    with 1 show ?thesis by (simp add: str_of_nat_step is_digit_digit_char)
  qed
qed

lemma length_str_of_nat: "0 < k \<Longrightarrow> n < 10 ^ k \<Longrightarrow> length (str_of_nat n) \<le> k"
proof (induction n arbitrary: k rule: str_of_nat.induct)
  case (1 n)
  show ?case
  proof (cases "n < 10")
    case True
    with 1(2) show ?thesis by (simp add: str_of_nat_small)
  next
    case False
    then have k2: "1 < k" using 1(3) by (cases "k = 1") (use 1(2) in auto)
    then obtain k' where k': "k = Suc k'" "0 < k'" by (cases k) auto
    have "n div 10 < 10 ^ k'" using 1(3) k' by (simp add: less_mult_imp_div_less mult.commute)
    with 1(1)[OF False k'(2)] have "length (str_of_nat (n div 10)) \<le> k'" by simp
    with False k' show ?thesis by (simp add: str_of_nat_step)
  qed
qed

text \<open>\<open>str_in\<close> is the contiguous-block relation of the list library.\<close>

lemma str_in_sublist: "str_in sub s = sublist sub s"
  by (induction s) (auto simp: sublist_Cons_right)

lemma str_in_map: "str_in sub s \<Longrightarrow> str_in (map f sub) (map f s)"
  by (induction s) (auto dest: map_mono_prefix [where f = f])

section \<open>Failure classification\<close>

lemma classify_drm_example: "classify_error ''DRM protection detected'' = drm_text"
  by code_simp

lemma classify_404_example: "classify_error ''HTTP Error 404: Not Found'' = not_found_text"
  by code_simp

lemma classify_texts_distinct:
  "distinct [drm_text, login_text, unsupported_text, not_found_text, extraction_text,
     cloudflare_text]"
  by code_simp

text \<open>
  C8. The rules of the exception handler, tried in their order with the first match
  winning, send the message \<open>DRM protection detected\<close> to the DRM text and the message
  \<open>HTTP Error 404: Not Found\<close> to the not-found text; a message that matches no rule is
  stored unchanged.
\<close>

theorem classify_error_rules:
  "classify_error ''DRM protection detected'' = drm_text
   \<and> classify_error ''HTTP Error 404: Not Found'' = not_found_text
   \<and> (matches_no_rule m \<longrightarrow> classify_error m = m)"
  using classify_drm_example classify_404_example
  by (simp add: matches_no_rule_def classify_error_def)

theorem classify_error_rules_witness:
  "matches_no_rule ''some never seen message''
   \<and> classify_error ''some never seen message'' = ''some never seen message''"
proof -
  have h: "matches_no_rule ''some never seen message''"
    by code_simp
  with classify_error_rules [of "''some never seen message''"] show ?thesis
    by blast
qed

section \<open>Format selection\<close>

text \<open>
  For the qualities that have a branch, the selector is a chain of alternatives that starts
  with a combined video and audio selector and ends in \<open>best\<close>.
\<close>

lemma format_chain_best:
  "map_option split_slash (format_sel (format_opts ''best'' ''video'')) =
     Some [''bestvideo[ext=mp4]+bestaudio[ext=m4a]'', ''bestvideo+bestaudio'',
           ''best[ext=mp4]'', ''best'']"
  by code_simp

lemma format_chain_4k:
  "map_option split_slash (format_sel (format_opts ''4k'' ''video'')) =
     Some [''bestvideo[height>=2160][ext=mp4]+bestaudio[ext=m4a]'',
           ''bestvideo[height>=2160]+bestaudio'', ''best[height>=2160]'',
           ''bestvideo+bestaudio'', ''best'']"
  by code_simp

lemma format_chain_1080p:
  "map_option split_slash (format_sel (format_opts ''1080p'' ''video'')) =
     Some [''bestvideo[height<=1080][ext=mp4]+bestaudio[ext=m4a]'',
           ''bestvideo[height<=1080]+bestaudio'', ''best[height<=1080]'', ''best'']"
  by code_simp

lemma format_chain_720p:
  "map_option split_slash (format_sel (format_opts ''720p'' ''video'')) =
     Some [''bestvideo[height<=720][ext=mp4]+bestaudio[ext=m4a]'',
           ''bestvideo[height<=720]+bestaudio'', ''best[height<=720]'', ''best'']"
  by code_simp

text \<open>
  C7. The quality \<open>480p\<close> passes \<open>validate_quality\<close> unchanged, and \<open>download_video\<close> has
  no branch for it: a video download at \<open>480p\<close> leaves both the \<open>format\<close> and the
  \<open>merge_output_format\<close> entry of the options unset.
\<close>

theorem format_unset_at_480p:
  "validate_quality ''480p'' = (True, ''480p'')
   \<and> format_sel (format_opts ''480p'' ''video'') = None
   \<and> merge_output_format (format_opts ''480p'' ''video'') = None"
  by code_simp

section \<open>Job ids\<close>

lemma py_int_clock_a: "py_int (clock_a * 1000) = 1700000000000"
  unfolding py_int_def clock_a_def by (simp add: floor_unique)

lemma py_int_clock_b: "py_int (clock_b * 1000) = 1700000000000"
  unfolding py_int_def clock_b_def by (simp add: floor_unique)

lemma str_of_nat_example: "str_of_nat 1700000000000 = ''1700000000000''"
  by (simp add: str_of_nat_small str_of_nat_step digit_char_def)

lemma new_download_id_clock_a: "new_download_id clock_a = ''download_1700000000000''"
  by (simp only: new_download_id_def py_int_clock_a str_of_int_def)
    (simp add: str_of_nat_example)

lemma new_download_id_clock_b: "new_download_id clock_b = ''download_1700000000000''"
  by (simp only: new_download_id_def py_int_clock_b str_of_int_def)
    (simp add: str_of_nat_example)

text \<open>
  C2. Two submissions whose clock readings, 1700000000.0001 and 1700000000.0004 seconds,
  fall into the same millisecond get the same id, and the record of the second replaces
  the record of the first in the registry.
\<close>

theorem same_millisecond_same_id:
  "clock_a \<noteq> clock_b
   \<and> fst (register_download clock_a s1 ''https://example.com/a'' q1 f1 reg)
       = Started ''download_1700000000000''
   \<and> fst (register_download clock_b s2 ''https://example.com/b'' q2 f2
            (fst (snd (register_download clock_a s1 ''https://example.com/a'' q1 f1 reg))))
       = Started ''download_1700000000000''
   \<and> map_option j_url
        (fst (snd (register_download clock_b s2 ''https://example.com/b'' q2 f2
            (fst (snd (register_download clock_a s1 ''https://example.com/a'' q1 f1 reg)))))
           ''download_1700000000000'')
       = Some ''https://example.com/b''"
proof -
  have "clock_a \<noteq> clock_b"
    by (simp add: clock_a_def clock_b_def)
  then show ?thesis
    by (simp add: register_download_def Let_def new_download_id_clock_a
        new_download_id_clock_b)
qed

section \<open>URL validation\<close>

lemma internal_host_nonempty: "internal_host h \<Longrightarrow> h \<noteq> []"
  by (auto simp: internal_host_def startswith_def)

lemma lower_internal_names:
  "lower ''localhost'' = ''localhost''" "lower ''127.0.0.1'' = ''127.0.0.1''"
  "lower ''0.0.0.0'' = ''0.0.0.0''" "lower ''::1'' = ''::1''"
  "lower ''10.'' = ''10.''" "lower ''172.'' = ''172.''" "lower ''192.168.'' = ''192.168.''"
  "lower ''169.254.169.254'' = ''169.254.169.254''"
  by code_simp+

lemma startswith_lower: "startswith h p \<Longrightarrow> startswith (lower h) (lower p)"
  by (simp add: startswith_def lower_def map_mono_prefix)

lemma str_in_lower: "str_in sub h \<Longrightarrow> str_in (lower sub) (lower h)"
  by (simp add: lower_def str_in_map)

lemma internal_host_lower:
  assumes "internal_host h"
  shows "lower h \<in> set [''localhost'', ''127.0.0.1'', ''0.0.0.0'', ''::1'']
     \<or> startswith (lower h) ''192.168.'' \<or> startswith (lower h) ''10.''
     \<or> startswith (lower h) ''172.'' \<or> str_in ''169.254.169.254'' (lower h)"
proof -
  from assms consider
      (name) "h \<in> set [''localhost'', ''127.0.0.1'', ''0.0.0.0'', ''::1'']"
    | (ten) "startswith h ''10.''"
    | (one72) "startswith h ''172.''"
    | (one92) "startswith h ''192.168.''"
    | (meta) "str_in ''169.254.169.254'' h"
    unfolding internal_host_def by blast
  then show ?thesis
  proof cases
    case name
    then have "lower h \<in> set [''localhost'', ''127.0.0.1'', ''0.0.0.0'', ''::1'']"
      using lower_internal_names(1-4) by auto
    then show ?thesis by blast
  next
    case ten
    from startswith_lower [OF this] show ?thesis by (simp only: lower_internal_names) blast
  next
    case one72
    from startswith_lower [OF this] show ?thesis by (simp only: lower_internal_names) blast
  next
    case one92
    from startswith_lower [OF this] show ?thesis by (simp only: lower_internal_names) blast
  next
    case meta
    from str_in_lower [OF this] show ?thesis by (simp only: lower_internal_names) blast
  qed
qed

lemma validate_url_internal:
  assumes parse: "urlparse url = Inr parsed"
    and host: "hostname parsed = Some h"
    and internal: "internal_host h"
  shows "\<exists>msg. msg \<noteq> [] \<and> validate_url re_search urlparse url = (False, Some msg)"
proof -
  note nonempty = internal_host_nonempty [OF internal]
  note low = internal_host_lower [OF internal]
  show ?thesis
  proof (cases "url = [] \<or> length url > MAX_URL_LENGTH
      \<or> list_ex (\<lambda>pattern. re_search pattern (lower url)) BLOCKED_PATTERNS")
    case True
    then show ?thesis by (auto simp: validate_url_def)
  next
    case early: False
    show ?thesis
    proof (cases "scheme parsed \<in> set ALLOWED_SCHEMES")
      case False
      with early parse show ?thesis by (simp add: validate_url_def)
    next
      case True
      from low consider
          (loc) "lower h \<in> set [''localhost'', ''127.0.0.1'', ''0.0.0.0'', ''::1'']"
        | (priv) "lower h \<notin> set [''localhost'', ''127.0.0.1'', ''0.0.0.0'', ''::1'']"
            "startswith (lower h) ''192.168.'' \<or> startswith (lower h) ''10.''
             \<or> startswith (lower h) ''172.''"
        | (meta) "lower h \<notin> set [''localhost'', ''127.0.0.1'', ''0.0.0.0'', ''::1'']"
            "\<not> (startswith (lower h) ''192.168.'' \<or> startswith (lower h) ''10.''
                \<or> startswith (lower h) ''172.'')"
            "str_in ''169.254.169.254'' (lower h)"
        by blast
      then show ?thesis
      proof cases
        case loc
        with early parse host True nonempty show ?thesis
          by (simp add: validate_url_def Let_def)
      next
        case priv
        with early parse host True nonempty show ?thesis
          by (simp add: validate_url_def Let_def)
      next
        case meta
        with early parse host True nonempty show ?thesis
          by (simp add: validate_url_def Let_def)
      qed
    qed
  qed
qed

text \<open>
  C1. A URL whose parsed host name is \<open>localhost\<close>, \<open>127.0.0.1\<close>, \<open>0.0.0.0\<close> or \<open>::1\<close>,
  starts with \<open>10.\<close>, \<open>172.\<close> or \<open>192.168.\<close>, or contains \<open>169.254.169.254\<close> is
  rejected by \<open>validate_url\<close> with a message that is not empty, whatever the pattern search
  and the parser do elsewhere; a submission of that URL is answered with the 400 response
  that carries the message, stores no record and starts no download thread.
\<close>

theorem validate_url_rejects_internal_hosts:
  assumes "urlparse url = Inr parsed" and "hostname parsed = Some h" and "internal_host h"
  shows "\<exists>msg. msg \<noteq> [] \<and> validate_url re_search urlparse url = (False, Some msg)
     \<and> (strip (req_url data) = url \<longrightarrow>
          start_download re_search urlparse now stamp download_progress data
            = (Invalid_URL msg, download_progress, None))"
proof -
  from validate_url_internal [where urlparse = urlparse and url = url and re_search = re_search,
      OF assms] obtain msg where
    msg: "msg \<noteq> []" "validate_url re_search urlparse url = (False, Some msg)"
    by blast
  then have "strip (req_url data) = url \<longrightarrow>
      start_download re_search urlparse now stamp download_progress data
        = (Invalid_URL msg, download_progress, None)"
    by (simp add: start_download_def Let_def)
  with msg show ?thesis by blast
qed

lemma local_request_facts:
  "parse_example ''http://localhost/admin'' = Inr \<lparr>scheme = ''http'', hostname = Some ''localhost''\<rparr>"
  "internal_host ''localhost''"
  "strip (req_url local_request) = ''http://localhost/admin''"
  by code_simp+

theorem validate_url_rejects_internal_hosts_witness:
  "parse_example ''http://localhost/admin'' = Inr \<lparr>scheme = ''http'', hostname = Some ''localhost''\<rparr>
   \<and> internal_host ''localhost''
   \<and> strip (req_url local_request) = ''http://localhost/admin''
   \<and> (\<exists>msg. msg \<noteq> []
        \<and> validate_url never_matches parse_example ''http://localhost/admin'' = (False, Some msg)
        \<and> start_download never_matches parse_example clock_a ''2023-11-14T22:13:20'' Map.empty
             local_request = (Invalid_URL msg, Map.empty, None))"
  using validate_url_rejects_internal_hosts [where urlparse = parse_example
      and url = "''http://localhost/admin''" and h = "''localhost''"
      and parsed = "\<lparr>scheme = ''http'', hostname = Some ''localhost''\<rparr>"
      and re_search = never_matches and data = local_request and now = clock_a
      and stamp = "''2023-11-14T22:13:20''" and download_progress = Map.empty]
    local_request_facts
  by simp

section \<open>Sanitising and matching job ids\<close>

lemma word_char_not_space: "is_word_char c \<Longrightarrow> \<not> is_space c"
  by (auto simp: is_word_char_def is_space_def Let_def)

lemma word_char_not_nul: "is_word_char c \<Longrightarrow> c \<noteq> CHR 0x00"
  by (auto simp: is_word_char_def Let_def)

lemma word_char_not_markup:
  "is_word_char c \<Longrightarrow> c \<noteq> CHR ''<'' \<and> c \<noteq> CHR ''>'' \<and> c \<noteq> CHR ''&''"
  by (auto simp: is_word_char_def Let_def)

lemma digit_is_word_char: "is_digit c \<Longrightarrow> is_word_char c"
  by (auto simp: is_word_char_def is_digit_def Let_def)

lemma digit_not_newline: "is_digit c \<Longrightarrow> c \<noteq> CHR 0x0A"
  by (auto simp: is_digit_def Let_def)

lemma prefix_word_chars: "list_all is_word_char ''download_''"
  by code_simp

lemma dropWhile_none: "\<forall>x \<in> set xs. \<not> P x \<Longrightarrow> dropWhile P xs = xs"
  by (cases xs) auto

lemma strip_word_chars: "list_all is_word_char s \<Longrightarrow> strip s = s"
  by (simp add: strip_def dropWhile_none list_all_iff word_char_not_space)

lemma filter_nul_word_chars:
  "list_all is_word_char s \<Longrightarrow> filter (\<lambda>c. c \<noteq> CHR 0x00) s = s"
  by (simp add: list_all_iff word_char_not_nul)

lemma sanitize_word_chars:
  assumes "keeps_words clean" and "list_all is_word_char s" and "length s \<le> n"
  shows "sanitize_string clean s n = s"
proof -
  from assms(1,2) have "clean s = s"
    by (simp add: keeps_words_def)
  with assms(2,3) show ?thesis
    by (simp add: sanitize_string_def filter_nul_word_chars strip_word_chars)
qed

lemma clean_scan_word_chars: "list_all is_word_char s \<Longrightarrow> clean_scan False s = s"
  by (induction s) (auto dest: word_char_not_markup)

lemma bleach_clean_keeps_words: "keeps_words bleach_clean"
  by (simp add: keeps_words_def bleach_clean_def clean_scan_word_chars)

lemma match_download_id_digits:
  assumes "ds \<noteq> []" and "list_all is_digit ds"
  shows "match_download_id (''download_'' @ ds)"
proof -
  from assms have "is_digit (last ds)"
    by (simp add: list_all_iff)
  then have "last (''download_'' @ ds) \<noteq> CHR 0x0A"
    using assms(1) digit_not_newline by simp
  with assms show ?thesis
    by (simp add: match_download_id_def startswith_def)
qed

text \<open>
  C6, as stated: an id need not match the pattern to get past the check, since the check
  reads the id after \<open>sanitize_string\<close>. The 51 characters of \<open>long_id\<close> do not match
  (the last one is a letter); cut to 50 characters they do, and with an empty registry the
  answer is 404, not 400.
\<close>

theorem unmatched_id_not_rejected:
  "\<not> match_download_id long_id
   \<and> get_progress bleach_clean Map.empty long_id = Download_not_found
   \<and> progress_status_code (get_progress bleach_clean Map.empty long_id) = 404"
  by code_simp

text \<open>
  C6, amended. An id whose sanitised form (cut to 50 characters, cleaned, without NUL
  characters, stripped of surrounding white space) does not match \<open>^download_\d+$\<close> is
  answered with the 400 response, whatever the registry holds and whatever the cleaner does.
\<close>

theorem unmatched_sanitized_id_rejected:
  assumes "\<not> match_download_id (sanitize_string clean download_id 50)"
  shows "get_progress clean download_progress download_id = Invalid_download_ID
     \<and> progress_status_code (get_progress clean download_progress download_id) = 400"
  using assms by (simp add: get_progress_def)

theorem unmatched_sanitized_id_rejected_witness:
  "\<not> match_download_id (sanitize_string bleach_clean ''job_7'' 50)
   \<and> get_progress bleach_clean Map.empty ''job_7'' = Invalid_download_ID
   \<and> progress_status_code (get_progress bleach_clean Map.empty ''job_7'') = 400"
proof -
  have h: "\<not> match_download_id (sanitize_string bleach_clean ''job_7'' 50)"
    by code_simp
  with unmatched_sanitized_id_rejected [OF h, of Map.empty] show ?thesis
    by simp
qed

text \<open>
  For an id of at most 50 letters, digits and underscores the sanitising step changes
  nothing, so such an id is rejected whenever it does not match.
\<close>

lemma unmatched_plain_id_rejected:
  assumes "keeps_words clean" and "list_all is_word_char download_id"
    and "length download_id \<le> 50" and "\<not> match_download_id download_id"
  shows "get_progress clean download_progress download_id = Invalid_download_ID"
  using assms by (simp add: get_progress_def sanitize_word_chars)

section \<open>Issued ids\<close>

lemma start_download_Started:
  assumes "start_download re_search urlparse now stamp reg data = (Started d, reg', t)"
  shows "\<exists>url quality format_type.
           register_download now stamp url quality format_type reg = (Started d, reg', t)"
  using assms
  by (auto simp: start_download_def Let_def split: prod.splits bool.splits)

lemma new_download_id_shape:
  assumes "0 \<le> now" and "now < 10 ^ 38"
  shows "\<exists>ds. new_download_id now = ''download_'' @ ds \<and> ds \<noteq> [] \<and> list_all is_digit ds
     \<and> length ds \<le> 41"
proof -
  let ?n = "nat (py_int (now * 1000))"
  from assms(1) have nonneg: "0 \<le> now * 1000" by simp
  then have int: "py_int (now * 1000) = \<lfloor>now * 1000\<rfloor>"
    by (simp add: py_int_def)
  from nonneg have ge: "0 \<le> \<lfloor>now * 1000\<rfloor>" by simp
  from assms(2) have "now * 1000 < 10 ^ 38 * 1000" by simp
  then have "now * 1000 < of_int (10 ^ 41)" by simp
  then have "\<lfloor>now * 1000\<rfloor> < 10 ^ 41" by (simp only: floor_less_iff)
  with ge int have "?n < 10 ^ 41"
    by (simp add: nat_less_iff)
  then have "length (str_of_nat ?n) \<le> 41"
    by (simp add: length_str_of_nat)
  moreover have "new_download_id now = ''download_'' @ str_of_nat ?n"
    using ge int by (simp add: new_download_id_def str_of_int_def)
  ultimately show ?thesis
    using str_of_nat_digits [of ?n] by blast
qed

text \<open>
  C10. When a submission is accepted at a clock reading between the epoch and
  \<open>10\<^sup>3\<^sup>8\<close> seconds, the id it returns is \<open>download_\<close> followed by digits. Given that
  the cleaner returns a string of letters, digits and underscores as it is, the sanitising
  step of the progress endpoint leaves this id unchanged, the id passes the shape check, and
  the endpoint answers with the queued record stored under that very id.
\<close>

theorem issued_id_is_found:
  assumes "keeps_words clean" and "0 \<le> now" and "now < 10 ^ 38"
    and "start_download re_search urlparse now stamp reg data = (Started d, reg', t)"
  shows "(\<exists>ds. d = ''download_'' @ ds \<and> ds \<noteq> [] \<and> list_all is_digit ds)
     \<and> sanitize_string clean d 50 = d
     \<and> match_download_id d
     \<and> (\<exists>j. reg' d = Some j \<and> j_id j = d \<and> j_status j = ''queued''
           \<and> get_progress clean reg' d = Job_json j)"
proof -
  from start_download_Started [OF assms(4)] obtain url quality format_type where
    reg: "register_download now stamp url quality format_type reg = (Started d, reg', t)"
    by blast
  then have d: "d = new_download_id now"
    by (simp add: register_download_def Let_def)
  from new_download_id_shape [OF assms(2,3)] d obtain ds where
    ds: "d = ''download_'' @ ds" "ds \<noteq> []" "list_all is_digit ds" "length ds \<le> 41"
    by auto
  have words: "list_all is_word_char d"
    using ds(1,3) prefix_word_chars by (auto simp: list_all_iff digit_is_word_char)
  have len: "length d \<le> 50"
    using ds(1,4) by simp
  have san: "sanitize_string clean d 50 = d"
    by (rule sanitize_word_chars [OF assms(1) words len])
  have mat: "match_download_id d"
    unfolding ds(1) by (rule match_download_id_digits [OF ds(2,3)])
  from reg obtain j where j: "reg' d = Some j" "j_id j = d" "j_status j = ''queued''"
    by (auto simp: register_download_def Let_def)
  with san mat have "get_progress clean reg' d = Job_json j"
    by (simp add: get_progress_def)
  with ds san mat j show ?thesis by blast
qed

lemma example_request_accepted:
  "start_download never_matches parse_example clock_a ''2023-11-14T22:13:20'' Map.empty
     example_request
   = register_download clock_a ''2023-11-14T22:13:20'' ''https://example.com/v'' ''best''
       ''video'' Map.empty"
proof -
  have u: "strip (req_url example_request) = ''https://example.com/v''"
    by code_simp
  have q: "req_quality example_request = None" "req_format example_request = None"
    by (simp_all add: example_request_def)
  have v: "validate_url never_matches parse_example ''https://example.com/v'' = (True, None)"
    by code_simp
  have vq: "validate_quality ''best'' = (True, ''best'')"
    by code_simp
  have vf: "validate_format ''video'' = (True, ''video'')"
    by code_simp
  show ?thesis
    by (simp add: start_download_def u q v vq vf)
qed

theorem issued_id_is_found_witness:
  "keeps_words bleach_clean \<and> 0 \<le> clock_a \<and> clock_a < 10 ^ 38
   \<and> fst (start_download never_matches parse_example clock_a ''2023-11-14T22:13:20'' Map.empty
        example_request) = Started ''download_1700000000000''
   \<and> sanitize_string bleach_clean ''download_1700000000000'' 50 = ''download_1700000000000''
   \<and> match_download_id ''download_1700000000000''
   \<and> (\<exists>j. j_id j = ''download_1700000000000'' \<and> j_status j = ''queued''
         \<and> get_progress bleach_clean
              (fst (snd (start_download never_matches parse_example clock_a
                 ''2023-11-14T22:13:20'' Map.empty example_request)))
              ''download_1700000000000'' = Job_json j)"
proof -
  have lo: "0 \<le> clock_a" and hi: "clock_a < 10 ^ 38"
    by (simp_all add: clock_a_def)
  obtain reg' t where
    sd: "start_download never_matches parse_example clock_a ''2023-11-14T22:13:20'' Map.empty
           example_request = (Started ''download_1700000000000'', reg', t)"
    by (simp add: example_request_accepted register_download_def Let_def
        new_download_id_clock_a)
  from issued_id_is_found [OF bleach_clean_keeps_words lo hi sd] sd lo hi
    bleach_clean_keeps_words
  show ?thesis
    by auto
qed

section \<open>Progress events and the job state\<close>

lemma error_event_sets_error:
  "is_error_event ev \<Longrightarrow> \<exists>j'. apply_event ev j = Returns j' \<and> j_status j' = ''error''"
  by (cases ev) (simp_all add: logger_error_job_def progress_hook_job_def)

lemma error_events_keep_error:
  "\<forall>ev \<in> set evs. is_error_event ev \<Longrightarrow>
     \<exists>js. run_events j evs = Inr js \<and> length js = length evs
       \<and> (\<forall>j' \<in> set js. j_status j' = ''error'')"
proof (induction evs arbitrary: j)
  case Nil
  show ?case by simp
next
  case (Cons ev evs)
  from Cons.prems have "is_error_event ev" by simp
  from error_event_sets_error [OF this] obtain j' where
    j': "apply_event ev j = Returns j'" "j_status j' = ''error''"
    by blast
  from Cons.prems have "\<forall>ev \<in> set evs. is_error_event ev" by simp
  from Cons.IH [OF this] obtain js where
    js: "run_events j' evs = Inr js" "length js = length evs"
      "\<forall>j'' \<in> set js. j_status j'' = ''error''"
    by blast
  with j' show ?case by simp
qed

text \<open>
  C3, as stated: no handler guards a terminal state. A downloading event moves a failed
  record back to \<open>downloading\<close>, and an error reported through the logger moves a
  completed record to \<open>error\<close>.
\<close>

theorem terminal_state_overwritten:
  "is_terminal (j_status failed_job)
   \<and> statuses_of (run_events failed_job [Progress (downloading_event None None 2048)])
       = Inr [''downloading'']
   \<and> \<not> is_terminal ''downloading''
   \<and> is_terminal (j_status completed_job)
   \<and> statuses_of (run_events completed_job [Logger_error ''Postprocessing failed''])
       = Inr [''error'']
   \<and> j_status completed_job \<noteq> ''error''"
  by code_simp

text \<open>
  C3, amended. Under a sequence that consists of logger error events and progress events
  of status \<open>error\<close> only, no call raises and the state is \<open>error\<close> after every event;
  so a record in state \<open>error\<close> stays there under such a sequence.
\<close>

theorem error_state_kept_by_error_events:
  assumes "\<forall>ev \<in> set evs. is_error_event ev"
  shows "\<exists>js. run_events j evs = Inr js \<and> length js = length evs
     \<and> (\<forall>j' \<in> set js. j_status j' = ''error'')"
  using assms by (rule error_events_keep_error)

theorem error_state_kept_by_error_events_witness:
  "list_all is_error_event [Logger_error ''HTTP Error 500'', Progress error_event]
   \<and> j_status failed_job = ''error''
   \<and> (\<exists>js. run_events failed_job [Logger_error ''HTTP Error 500'', Progress error_event] = Inr js
         \<and> length js = 2 \<and> (\<forall>j' \<in> set js. j_status j' = ''error''))"
proof -
  have h: "\<forall>ev \<in> set [Logger_error ''HTTP Error 500'', Progress error_event]. is_error_event ev"
    by (simp add: error_event_def)
  have s: "j_status failed_job = ''error''"
    by (simp add: failed_job_def)
  from error_state_kept_by_error_events [OF h, of failed_job] obtain js where
    js: "run_events failed_job [Logger_error ''HTTP Error 500'', Progress error_event] = Inr js"
      "length js = length [Logger_error ''HTTP Error 500'', Progress error_event]"
      "\<forall>j' \<in> set js. j_status j' = ''error''"
    by blast
  from js(2) have "length js = 2"
    by simp
  moreover have "list_all is_error_event [Logger_error ''HTTP Error 500'', Progress error_event]"
    using h by (simp only: list_all_iff)
  ultimately show ?thesis
    using js(1,3) s by blast
qed

section \<open>Progress values and byte counters\<close>

lemma hook_downloading_total:
  assumes "e_status d = ''downloading''" and "event_total d = Some t" and "t \<noteq> 0"
  shows "\<exists>j'. progress_hook_job d j = Returns j'
     \<and> j_status j' = ''downloading''
     \<and> j_progress j' = event_downloaded d / t * 100
     \<and> j_downloaded j' = Some (event_downloaded d)
     \<and> j_total j' = Some t"
  using assms
  by (auto simp: progress_hook_job_def store_counters_def event_total_def event_downloaded_def
      Let_def split: option.splits)

lemma run_downloading_fixed_total:
  assumes "\<forall>d \<in> set ds. e_status d = ''downloading'' \<and> event_total d = Some t" and "t \<noteq> 0"
  shows "\<exists>js. run_events j (map Progress ds) = Inr js
     \<and> map j_progress js = map (\<lambda>d. event_downloaded d / t * 100) ds"
  using assms(1)
proof (induction ds arbitrary: j)
  case Nil
  show ?case by simp
next
  case (Cons d ds)
  from Cons.prems have "e_status d = ''downloading''" "event_total d = Some t" by simp_all
  from hook_downloading_total [OF this assms(2)] obtain j' where
    j': "progress_hook_job d j = Returns j'" "j_progress j' = event_downloaded d / t * 100"
    by blast
  from Cons.prems have "\<forall>d \<in> set ds. e_status d = ''downloading'' \<and> event_total d = Some t"
    by simp
  from Cons.IH [OF this] obtain js where
    "run_events j' (map Progress ds) = Inr js"
    "map j_progress js = map (\<lambda>d. event_downloaded d / t * 100) ds"
    by blast
  with j' show ?case by simp
qed

lemma sorted_scaled:
  assumes "sorted (map f xs)" and "(0::rat) < t"
  shows "sorted (map (\<lambda>x. f x / t * 100) xs)"
  using assms
  by (induction xs) (auto simp: divide_right_mono)

text \<open>
  C4, as stated: two downloading events with growing \<open>downloaded_bytes\<close>, 1024 and then
  2048, whose estimated total grows from 2048 to 8192, take the progress value from 50
  down to 25.
\<close>

theorem progress_decreases_when_total_grows:
  "event_downloaded (downloading_event None (Some 2048) 1024)
     \<le> event_downloaded (downloading_event None (Some 8192) 2048)
   \<and> progress_of (run_events queued_job
        [Progress (downloading_event None (Some 2048) 1024),
         Progress (downloading_event None (Some 8192) 2048)])
       = Inr [50, 25]"
  by code_simp

text \<open>
  C4, amended. For a sequence of downloading events that all carry the same positive
  total, as \<open>total_bytes\<close> or as \<open>total_bytes_estimate\<close>, and whose \<open>downloaded_bytes\<close> do
  not decrease, no call raises and the progress value of the record does not decrease from
  one event to the next.
\<close>

theorem progress_monotone_fixed_total:
  assumes "\<forall>d \<in> set ds. e_status d = ''downloading'' \<and> event_total d = Some t"
    and "0 < t"
    and "sorted (map event_downloaded ds)"
  shows "\<exists>js. run_events j (map Progress ds) = Inr js \<and> length js = length ds
     \<and> sorted (map j_progress js)"
proof -
  from assms(2) have "t \<noteq> 0" by simp
  from run_downloading_fixed_total [OF assms(1) this] obtain js where
    js: "run_events j (map Progress ds) = Inr js"
      "map j_progress js = map (\<lambda>d. event_downloaded d / t * 100) ds"
    by blast
  from js(2) have "length js = length ds"
    by (metis length_map)
  moreover have "sorted (map j_progress js)"
    unfolding js(2) by (rule sorted_scaled [OF assms(3,2)])
  ultimately show ?thesis using js(1) by blast
qed

theorem progress_monotone_fixed_total_witness:
  "list_all (\<lambda>d. e_status d = ''downloading'' \<and> event_total d = Some 4096)
     [downloading_event (Some 4096) None 1024, downloading_event None (Some 4096) 3072]
   \<and> (0::rat) < 4096
   \<and> sorted (map event_downloaded
        [downloading_event (Some 4096) None 1024, downloading_event None (Some 4096) 3072])
   \<and> (\<exists>js. run_events queued_job (map Progress
         [downloading_event (Some 4096) None 1024, downloading_event None (Some 4096) 3072])
           = Inr js \<and> length js = 2 \<and> sorted (map j_progress js))"
proof -
  have a: "\<forall>d \<in> set [downloading_event (Some 4096) None 1024,
      downloading_event None (Some 4096) 3072].
      e_status d = ''downloading'' \<and> event_total d = Some 4096"
    by (simp add: downloading_event_def event_total_def)
  have b: "(0::rat) < 4096"
    by simp
  have c: "sorted (map event_downloaded
      [downloading_event (Some 4096) None 1024, downloading_event None (Some 4096) 3072])"
    by (simp add: downloading_event_def event_downloaded_def get_default_def)
  from progress_monotone_fixed_total [OF a b c, of queued_job] obtain js where
    js: "run_events queued_job (map Progress
           [downloading_event (Some 4096) None 1024, downloading_event None (Some 4096) 3072])
         = Inr js"
      "length js
         = length [downloading_event (Some 4096) None 1024, downloading_event None (Some 4096) 3072]"
      "sorted (map j_progress js)"
    by blast
  from js(2) have "length js = 2"
    by simp
  moreover have "list_all (\<lambda>d. e_status d = ''downloading'' \<and> event_total d = Some 4096)
     [downloading_event (Some 4096) None 1024, downloading_event None (Some 4096) 3072]"
    using a by (simp only: list_all_iff)
  ultimately show ?thesis
    using js(1,3) b c by blast
qed

text \<open>
  C5, as stated: the hook stores the counters of the event unchecked. After a downloading
  event with 3072 bytes downloaded and an estimated total of 2048, the record has
  \<open>downloaded = 3072\<close>, \<open>total = 2048\<close> and a progress value of 150.
\<close>

theorem counters_exceed_total:
  "(case progress_hook_job (downloading_event None (Some 2048) 3072) queued_job of
      Returns j' \<Rightarrow> j_downloaded j' = Some 3072 \<and> j_total j' = Some 2048 \<and> j_progress j' = 150
    | Raises e j' \<Rightarrow> False)
   \<and> \<not> (3072 \<le> (2048::rat)) \<and> \<not> (150 \<le> (100::rat))"
  by code_simp

text \<open>
  C5, amended. After a downloading event that carries a positive total and a
  \<open>downloaded_bytes\<close> count that is not above it, the record has both counters set to the
  values of the event, with \<open>downloaded \<le> total\<close>, and its progress value is at most 100.
\<close>

theorem counters_bounded_when_event_bounded:
  assumes "e_status d = ''downloading''" and "event_total d = Some t" and "0 < t"
    and "event_downloaded d \<le> t"
  shows "\<exists>j' dl tt. progress_hook_job d j = Returns j'
     \<and> j_downloaded j' = Some dl \<and> j_total j' = Some tt
     \<and> dl = event_downloaded d \<and> tt = t \<and> dl \<le> tt \<and> j_progress j' \<le> 100"
proof -
  from assms(3) have "t \<noteq> 0" by simp
  from hook_downloading_total [OF assms(1,2) this] obtain j' where
    j': "progress_hook_job d j = Returns j'"
      "j_progress j' = event_downloaded d / t * 100"
      "j_downloaded j' = Some (event_downloaded d)" "j_total j' = Some t"
    by blast
  from assms(3,4) have "event_downloaded d / t \<le> 1"
    by (simp add: divide_le_eq_1)
  then have "event_downloaded d / t * 100 \<le> 1 * 100"
    by (rule mult_right_mono) simp
  then have "event_downloaded d / t * 100 \<le> 100"
    by (simp only: mult_1)
  with j' assms(4) show ?thesis by simp
qed

theorem counters_bounded_when_event_bounded_witness:
  "e_status (downloading_event (Some 4096) None 1024) = ''downloading''
   \<and> event_total (downloading_event (Some 4096) None 1024) = Some 4096
   \<and> (0::rat) < 4096
   \<and> event_downloaded (downloading_event (Some 4096) None 1024) \<le> 4096
   \<and> (\<exists>j'. progress_hook_job (downloading_event (Some 4096) None 1024) queued_job = Returns j'
         \<and> j_downloaded j' = Some 1024 \<and> j_total j' = Some 4096 \<and> j_progress j' \<le> 100)"
proof -
  have a: "e_status (downloading_event (Some 4096) None 1024) = ''downloading''"
    by (simp add: downloading_event_def)
  have b: "event_total (downloading_event (Some 4096) None 1024) = Some 4096"
    by (simp add: downloading_event_def event_total_def)
  have c: "(0::rat) < 4096"
    by simp
  have e: "event_downloaded (downloading_event (Some 4096) None 1024) = 1024"
    by (simp add: downloading_event_def event_downloaded_def get_default_def)
  then have f: "event_downloaded (downloading_event (Some 4096) None 1024) \<le> 4096"
    by simp
  from counters_bounded_when_event_bounded [OF a b c f, of queued_job] a b e show ?thesis
    by auto
qed

section \<open>The retention sweeper\<close>

lemma unique_entry:
  assumes "distinct (map fst fs)" and "map_of fs n = Some nd" and "e \<in> set fs" and "fst e = n"
  shows "snd e = nd"
proof -
  from assms(3,4) have "(n, snd e) \<in> set fs"
    by (metis prod.collapse)
  with assms(1) have "map_of fs n = Some (snd e)"
    by (rule map_of_is_SomeI)
  with assms(2) show ?thesis by simp
qed

lemma no_entry: "map_of fs n = None \<Longrightarrow> e \<in> set fs \<Longrightarrow> fst e \<noteq> n"
  by (metis map_of_eq_None_iff image_eqI)

lemma distinct_filter_names:
  "distinct (map fst fs) \<Longrightarrow> distinct (map fst (filter P fs))"
  by (rule distinct_map_filter)

text \<open>
  The loop returns for every listing, and it removes exactly the entries that are named in
  the listing, are older than thirty seconds and are removable.
\<close>

lemma cleanup_loop_files:
  assumes "distinct (map fst (files st))"
  shows "\<exists>st'. cleanup_loop now ns st = Returns st'
     \<and> files st' =
         filter (\<lambda>e. \<not> (fst e \<in> set ns \<and> expired now (snd e) \<and> removable (snd e))) (files st)"
  using assms
proof (induction ns arbitrary: st)
  case Nil
  show ?case by simp
next
  case (Cons name rest)
  note dist = Cons.prems
  show ?case
  proof (cases "map_of (files st) name")
    case None
    from Cons.IH [OF dist] obtain st' where
      st': "cleanup_loop now rest st = Returns st'"
        "files st' = filter (\<lambda>e. \<not> (fst e \<in> set rest \<and> expired now (snd e)
           \<and> removable (snd e))) (files st)"
      by blast
    have "filter (\<lambda>e. \<not> (fst e \<in> set rest \<and> expired now (snd e) \<and> removable (snd e)))
            (files st)
        = filter (\<lambda>e. \<not> (fst e \<in> set (name # rest) \<and> expired now (snd e)
            \<and> removable (snd e))) (files st)"
      by (rule filter_cong) (use no_entry [OF None] in auto)
    with st' None show ?thesis
      by (simp add: isfile_def)
  next
    case (Some nd)
    note uniq = unique_entry [OF dist Some]
    show ?thesis
    proof (cases "expired now nd \<and> removable nd")
      case True
      then obtain m where nd: "nd = Regular_file m True" and old: "now - m > 30"
        by (cases nd) (auto simp: expired_def removable_def)
      let ?fs = "filter (\<lambda>entry. fst entry \<noteq> name) (files st)"
      let ?st = "st\<lparr>files := ?fs, cleanup_count := cleanup_count st + 1,
        printed := printed st @ [Cleaned_up name]\<rparr>"
      have "distinct (map fst (files ?st))"
        using dist by (simp add: distinct_filter_names)
      from Cons.IH [OF this] obtain st' where
        st': "cleanup_loop now rest ?st = Returns st'"
          "files st' = filter (\<lambda>e. \<not> (fst e \<in> set rest \<and> expired now (snd e)
             \<and> removable (snd e))) ?fs"
        by auto
      have "filter (\<lambda>e. \<not> (fst e \<in> set rest \<and> expired now (snd e) \<and> removable (snd e))) ?fs
          = filter (\<lambda>e. \<not> (fst e \<in> set (name # rest) \<and> expired now (snd e)
              \<and> removable (snd e))) (files st)"
        unfolding filter_filter
        by (rule filter_cong) (use uniq True in auto)
      with st' Some nd old show ?thesis
        by (simp add: isfile_def getmtime_def os_remove_def Let_def)
    next
      case False
      have same: "filter (\<lambda>e. \<not> (fst e \<in> set rest \<and> expired now (snd e) \<and> removable (snd e)))
            (files st)
          = filter (\<lambda>e. \<not> (fst e \<in> set (name # rest) \<and> expired now (snd e)
              \<and> removable (snd e))) (files st)"
        by (rule filter_cong) (use uniq False in auto)
      show ?thesis
      proof (cases nd)
        case (Directory m)
        from Cons.IH [OF dist] obtain st' where
          "cleanup_loop now rest st = Returns st'"
          "files st' = filter (\<lambda>e. \<not> (fst e \<in> set rest \<and> expired now (snd e)
             \<and> removable (snd e))) (files st)"
          by blast
        with same Some Directory show ?thesis
          by (simp add: isfile_def)
      next
        case (Regular_file m r)
        let ?st = "st\<lparr>printed := printed st @ [Failed_to_delete name PermissionError]\<rparr>"
        have "distinct (map fst (files ?st))"
          using dist by simp
        from Cons.IH [OF this] obtain st1 where
          st1: "cleanup_loop now rest ?st = Returns st1"
            "files st1 = filter (\<lambda>e. \<not> (fst e \<in> set rest \<and> expired now (snd e)
               \<and> removable (snd e))) (files st)"
          by auto
        from Cons.IH [OF dist] obtain st2 where
          st2: "cleanup_loop now rest st = Returns st2"
            "files st2 = filter (\<lambda>e. \<not> (fst e \<in> set rest \<and> expired now (snd e)
               \<and> removable (snd e))) (files st)"
          by blast
        from False Regular_file have "\<not> now - m > 30 \<or> \<not> r"
          by (simp add: expired_def removable_def)
        with st1 st2 same Some Regular_file show ?thesis
          by (auto simp: isfile_def getmtime_def os_remove_def Let_def)
      qed
    qed
  qed
qed

lemma cleanup_old_downloads_files:
  assumes "distinct (map fst fs)"
  shows "(\<exists>st'. cleanup_loop now (listdir fs) \<lparr>files = fs, cleanup_count = 0, printed = []\<rparr>
            = Returns st')
     \<and> files (cleanup_old_downloads now fs)
         = filter (\<lambda>e. \<not> (expired now (snd e) \<and> removable (snd e))) fs"
proof -
  let ?st0 = "\<lparr>files = fs, cleanup_count = 0, printed = []\<rparr>"
  from assms have "distinct (map fst (files ?st0))"
    by simp
  from cleanup_loop_files [OF this, of now "listdir fs"] obtain st' where
    st': "cleanup_loop now (listdir fs) ?st0 = Returns st'"
      "files st' = filter (\<lambda>e. \<not> (fst e \<in> set (listdir fs) \<and> expired now (snd e)
         \<and> removable (snd e))) fs"
    by auto
  have "filter (\<lambda>e. \<not> (fst e \<in> set (listdir fs) \<and> expired now (snd e) \<and> removable (snd e))) fs
      = filter (\<lambda>e. \<not> (expired now (snd e) \<and> removable (snd e))) fs"
    by (rule filter_cong) (auto simp: listdir_def)
  with st' show ?thesis
    by (simp add: cleanup_old_downloads_def)
qed

lemma sweep_example:
  "files (cleanup_old_downloads 1000 example_folder)
     = [(''locked.mp4'', Regular_file 100 False), (''new.mp4'', Regular_file 980 True),
        (''sub'', Directory 50)]
   \<and> cleanup_count (cleanup_old_downloads 1000 example_folder) = 1
   \<and> printed (cleanup_old_downloads 1000 example_folder)
       = [Cleaned_up ''old.mp4'', Failed_to_delete ''locked.mp4'' PermissionError,
          Cleanup_complete 1]"
  by code_simp

text \<open>
  C9. On a tick at time \<open>now\<close> over a folder whose entries have distinct names, the loop
  runs through the whole listing without leaving by an exception, and for every regular
  file of the folder: when its age \<open>now - mtime\<close> exceeds 30 seconds and \<open>os.remove\<close>
  succeeds on it, it is gone after the tick; when its age exceeds 30 seconds and
  \<open>os.remove\<close> fails on it, it is still there, and this changes nothing for the other
  files; when its age is at most 30 seconds, it is still there.
\<close>

theorem sweep_tick:
  assumes "distinct (map fst fs)" and "(name, Regular_file mtime r) \<in> set fs"
  shows "(\<exists>st'. cleanup_loop now (listdir fs) \<lparr>files = fs, cleanup_count = 0, printed = []\<rparr>
            = Returns st')
     \<and> (now - mtime > 30 \<and> r \<longrightarrow>
          name \<notin> set (listdir (files (cleanup_old_downloads now fs))))
     \<and> (now - mtime > 30 \<and> \<not> r \<longrightarrow>
          (name, Regular_file mtime r) \<in> set (files (cleanup_old_downloads now fs)))
     \<and> (now - mtime \<le> 30 \<longrightarrow>
          (name, Regular_file mtime r) \<in> set (files (cleanup_old_downloads now fs)))"
proof -
  note tick = cleanup_old_downloads_files [OF assms(1), of now]
  have gone: "name \<notin> set (listdir (files (cleanup_old_downloads now fs)))"
    if "now - mtime > 30" and "r"
  proof
    assume "name \<in> set (listdir (files (cleanup_old_downloads now fs)))"
    then obtain nd where nd: "(name, nd) \<in> set fs" "\<not> (expired now nd \<and> removable nd)"
      using tick by (auto simp: listdir_def)
    from eq_key_imp_eq_value [OF assms(1) nd(1) assms(2)] have "nd = Regular_file mtime r" .
    with nd(2) that show False
      by (simp add: expired_def removable_def)
  qed
  have kept: "(name, Regular_file mtime r) \<in> set (files (cleanup_old_downloads now fs))"
    if "\<not> r \<or> now - mtime \<le> 30"
    using tick assms(2) that by (auto simp: expired_def removable_def)
  from tick gone kept show ?thesis
    by auto
qed

theorem sweep_tick_witness:
  "distinct (map fst example_folder)
   \<and> (''old.mp4'', Regular_file 100 True) \<in> set example_folder \<and> (1000::rat) - 100 > 30
   \<and> ''old.mp4'' \<notin> set (listdir (files (cleanup_old_downloads 1000 example_folder)))
   \<and> (''locked.mp4'', Regular_file 100 False) \<in> set example_folder
   \<and> (''locked.mp4'', Regular_file 100 False)
        \<in> set (files (cleanup_old_downloads 1000 example_folder))
   \<and> (''new.mp4'', Regular_file 980 True) \<in> set example_folder \<and> (1000::rat) - 980 \<le> 30
   \<and> (''new.mp4'', Regular_file 980 True)
        \<in> set (files (cleanup_old_downloads 1000 example_folder))"
proof -
  have d: "distinct (map fst example_folder)"
    by (simp add: example_folder_def)
  have a: "(''old.mp4'', Regular_file 100 True) \<in> set example_folder"
    and b: "(''locked.mp4'', Regular_file 100 False) \<in> set example_folder"
    and c: "(''new.mp4'', Regular_file 980 True) \<in> set example_folder"
    by (simp_all add: example_folder_def)
  from sweep_tick [OF d a, of 1000] sweep_tick [OF d b, of 1000] sweep_tick [OF d c, of 1000]
    d a b c
  show ?thesis
    by simp
qed

end
